theory Spec2Isabelle
  imports Complex_Main
begin

unbundle bit_operations_syntax

section \<open>Vehicle counter: the crossing and deduplication engine of backend.py\<close>

text \<open>
  The development embeds the counting loop of \<^verbatim>\<open>src/backend.py\<close>. Pixel
  positions are Python integers (\<open>int\<close>), confidences and clock readings are
  rationals (every float is one, and the comparisons the code makes on them are
  exact), tracker ids are the integer values the tracker hands out. The box centre
  of lines 160 to 162 is float arithmetic on the box corners; an observation here
  carries the resulting integer centre. Rendering (rectangles, overlay text, the FPS
  figure) writes only to the display and is left out, and so is the wall-clock
  timestamp column of a logged row. The start-up steps that can abort the script
  before the loop (creating the table, loading the model, opening the CSV file) are
  taken to have succeeded.
\<close>

subsection \<open>Configuration (lines 11 to 25)\<close>

type_synonym point = "int \<times> int"

definition LINE_START :: point where
  "LINE_START = (100, 180)"

definition LINE_END :: point where
  "LINE_END = (700, 50)"

definition CONFIDENCE_THRESHOLD :: rat where
  "CONFIDENCE_THRESHOLD = 3 / 10"

definition FRAME_SKIP :: nat where
  "FRAME_SKIP = 3"

subsection \<open>Cross line detection (lines 114 to 118)\<close>

text \<open>
  \<^verbatim>\<open>ccw(A, B, C)\<close> is the strict comparison
  \<^verbatim>\<open>(C[1] - A[1]) * (B[0] - A[0]) > (B[1] - A[1]) * (C[0] - A[0])\<close>.
\<close>

definition ccw :: "point \<Rightarrow> point \<Rightarrow> point \<Rightarrow> bool" where
  "ccw A B C \<longleftrightarrow>
     (snd C - snd A) * (fst B - fst A) > (snd B - snd A) * (fst C - fst A)"

definition crossed_line :: "point \<Rightarrow> point \<Rightarrow> point \<Rightarrow> point \<Rightarrow> bool" where
  "crossed_line prev cur line_start line_end \<longleftrightarrow>
     ccw line_start prev cur \<noteq> ccw line_end prev cur \<and>
     ccw line_start line_end prev \<noteq> ccw line_start line_end cur"

text \<open>
  Geometric vocabulary for the claims about ties. \<open>turn A B C\<close> is the cross
  product whose sign \<open>ccw\<close> tests; it is zero exactly when the three points lie on
  one line. \<open>on_segment P Q X\<close> says that \<open>X\<close> is a point of the closed segment
  from \<open>P\<close> to \<open>Q\<close>.
\<close>

definition turn :: "point \<Rightarrow> point \<Rightarrow> point \<Rightarrow> int" where
  "turn A B C = (snd C - snd A) * (fst B - fst A) - (snd B - snd A) * (fst C - fst A)"

definition collinear3 :: "point \<Rightarrow> point \<Rightarrow> point \<Rightarrow> bool" where
  "collinear3 A B C \<longleftrightarrow> turn A B C = 0"

definition on_segment :: "point \<Rightarrow> point \<Rightarrow> point \<Rightarrow> bool" where
  "on_segment P Q X \<longleftrightarrow>
     collinear3 P Q X \<and>
     min (fst P) (fst Q) \<le> fst X \<and> fst X \<le> max (fst P) (fst Q) \<and>
     min (snd P) (snd Q) \<le> snd X \<and> snd X \<le> max (snd P) (snd Q)"

subsection \<open>Location config file (lines 46 to 58)\<close>

text \<open>
  What \<^verbatim>\<open>os.path.exists\<close>, \<^verbatim>\<open>open\<close> and \<^verbatim>\<open>f.read()\<close> find at the
  moment of the call: no file, an exception while opening or reading, or the text
  read. Characters are code points below 256; \<open>is_space\<close> lists the ones Python's
  \<^verbatim>\<open>str.strip()\<close> removes.
\<close>

datatype file_read = Missing | Unreadable | Content string

datatype log_msg =
    ErrorReadingLocation
  | LoggedToDatabase string int string
  | ErrorLoggingToDatabase
  | VideoRestart
  | LocationChanged string

definition is_space :: "char \<Rightarrow> bool" where
  "is_space c \<longleftrightarrow>
     (of_char c :: nat) \<in> {9, 10, 11, 12, 13, 28, 29, 30, 31, 32, 133, 160}"

definition strip :: "string \<Rightarrow> string" where
  "strip s = rev (dropWhile is_space (rev (dropWhile is_space s)))"

definition DEFAULT_LOCATION :: string where
  "DEFAULT_LOCATION = ''Basni Crossing''"

text \<open>The result is the returned location and the lines printed on the way.\<close>

definition get_current_location :: "file_read \<Rightarrow> string \<times> log_msg list" where
  "get_current_location f =
     (case f of
        Missing \<Rightarrow> (DEFAULT_LOCATION, [])
      | Unreadable \<Rightarrow> (DEFAULT_LOCATION, [ErrorReadingLocation])
      | Content txt \<Rightarrow>
          (let location_id = strip txt
           in if location_id \<noteq> [] then (location_id, []) else (DEFAULT_LOCATION, [])))"

subsection \<open>Class mapping (lines 81 to 89)\<close>

definition lower_char :: "char \<Rightarrow> char" where
  "lower_char c =
     (let n = (of_char c :: nat) in if 65 \<le> n \<and> n \<le> 90 then char_of (n + 32) else c)"

definition lower :: "string \<Rightarrow> string" where
  "lower s = map lower_char s"

definition map_vehicle_class :: "string \<Rightarrow> string" where
  "map_vehicle_class original_class =
     (case map_of [(''car'', ''car''), (''motorcycle'', ''motorcycle''),
                   (''truck'', ''truck''), (''bus'', ''bus'')] original_class of
        Some v \<Rightarrow> v
      | None \<Rightarrow> lower original_class)"

subsection \<open>Process state (lines 94 to 122)\<close>

text \<open>
  One tracked box of a frame, as the \<^verbatim>\<open>zip\<close> of line 159 yields it, with the
  label already looked up in \<^verbatim>\<open>model.names\<close> and the centre already computed.
\<close>

record observation =
  box_id :: int
  label :: string
  center_x :: int
  center_y :: int
  conf :: rat

record crossing_event =
  vehicle_type :: string
  vehicle_id :: int
  location_id :: string

text \<open>
  The module-level variables of the script, the two stores it writes to and the
  console. \<open>db_calls\<close> lists every call of \<^verbatim>\<open>log_vehicle_to_database\<close>,
  \<open>db_rows\<close> the rows that were committed. \<open>db_outcomes\<close> belongs to the
  environment: whether the coming inserts succeed, in order; once the list is used
  up, inserts succeed. Writing the CSV backup is taken to succeed.
\<close>

record world =
  current_location :: string
  count_cars :: int
  count_bikes :: int
  count_trucks :: int
  counted_ids :: "int set"
  object_memory :: "int \<rightharpoonup> point"
  frame_count :: nat
  last_location_check :: rat
  db_outcomes :: "bool list"
  db_calls :: "crossing_event list"
  db_rows :: "crossing_event list"
  csv_rows :: "crossing_event list"
  console :: "log_msg list"

definition init_world :: "file_read \<Rightarrow> rat \<Rightarrow> bool list \<Rightarrow> world" where
  "init_world f t0 outcomes =
     (let (loc, msgs) = get_current_location f
      in \<lparr>current_location = loc,
          count_cars = 0, count_bikes = 0, count_trucks = 0,
          counted_ids = {},
          object_memory = Map.empty,
          frame_count = 0,
          last_location_check = t0,
          db_outcomes = outcomes,
          db_calls = [], db_rows = [], csv_rows = [],
          console = msgs\<rparr>)"

subsection \<open>Event sink (lines 60 to 79)\<close>

definition log_vehicle_to_database :: "string \<Rightarrow> int \<Rightarrow> string \<Rightarrow> world \<Rightarrow> world" where
  "log_vehicle_to_database vt vid loc w =
     (let ev = \<lparr>vehicle_type = vt, vehicle_id = vid, location_id = loc\<rparr>;
          ok = (case db_outcomes w of [] \<Rightarrow> True | b # _ \<Rightarrow> b);
          w1 = w\<lparr>db_outcomes := tl (db_outcomes w), db_calls := db_calls w @ [ev]\<rparr>
      in if ok
         then w1\<lparr>db_rows := db_rows w1 @ [ev],
                 console := console w1 @ [LoggedToDatabase vt vid loc]\<rparr>
         else w1\<lparr>console := console w1 @ [ErrorLoggingToDatabase]\<rparr>)"

subsection \<open>One tracked box (lines 159 to 193)\<close>

definition recognized :: "string list" where
  "recognized = [''car'', ''motorcycle'', ''truck'', ''bus'']"

definition bump_counter :: "string \<Rightarrow> world \<Rightarrow> world" where
  "bump_counter l w =
     (if l = ''car'' then w\<lparr>count_cars := count_cars w + 1\<rparr>
      else if l = ''motorcycle'' then w\<lparr>count_bikes := count_bikes w + 1\<rparr>
      else if l = ''truck'' then w\<lparr>count_trucks := count_trucks w + 1\<rparr>
      else w)"

definition process_observation :: "observation \<Rightarrow> world \<Rightarrow> world" where
  "process_observation ob w =
     (if label ob \<in> set recognized \<and> conf ob > 25 / 100 then
        (let c = (center_x ob, center_y ob);
             prev_center = (case object_memory w (box_id ob) of None \<Rightarrow> c | Some p \<Rightarrow> p);
             w1 = w\<lparr>object_memory := (object_memory w)(box_id ob \<mapsto> c)\<rparr>
         in if crossed_line prev_center c LINE_START LINE_END \<and> box_id ob \<notin> counted_ids w1
            then
              (let w2 = w1\<lparr>counted_ids := insert (box_id ob) (counted_ids w1)\<rparr>;
                   mapped_class = map_vehicle_class (label ob);
                   w3 = log_vehicle_to_database mapped_class (box_id ob) (current_location w2) w2;
                   w4 = w3\<lparr>csv_rows := csv_rows w3 @
                          [\<lparr>vehicle_type = mapped_class, vehicle_id = box_id ob,
                            location_id = current_location w3\<rparr>]\<rparr>
               in bump_counter (label ob) w4)
            else w1)
      else w)"

fun process_boxes :: "observation list \<Rightarrow> world \<Rightarrow> world" where
  "process_boxes [] w = w"
| "process_boxes (ob # obs) w = process_boxes obs (process_observation ob w)"

subsection \<open>Main loop (lines 127 to 211)\<close>

text \<open>
  What one pass of the loop reads from outside: the result of \<^verbatim>\<open>cap.read()\<close>
  and, for a frame, the clock at line 139, the state of the location file, the
  tracker's boxes (\<open>None\<close> when \<^verbatim>\<open>boxes.id\<close> is \<^verbatim>\<open>None\<close>) and the key
  returned by \<^verbatim>\<open>cv2.waitKey(1)\<close>. A run of the process is a sequence of such
  readings, indexed by the pass.
\<close>

record frame_input =
  clock :: rat
  location_file :: file_read
  tracked :: "observation list option"
  pressed :: int

datatype read_result = NoFrame | Frame frame_input

definition check_location :: "rat \<Rightarrow> file_read \<Rightarrow> world \<Rightarrow> world" where
  "check_location current_time f w =
     (if current_time - last_location_check w > 5 then
        (let (new_location, msgs) = get_current_location f;
             w1 = w\<lparr>console := console w @ msgs\<rparr>;
             w2 = (if new_location \<noteq> current_location w1
                   then w1\<lparr>current_location := new_location,
                           console := console w1 @ [LocationChanged new_location]\<rparr>
                   else w1)
         in w2\<lparr>last_location_check := current_time\<rparr>)
      else w)"

text \<open>The first component of the result says whether the pass ended in \<^verbatim>\<open>break\<close>.\<close>

definition loop_body :: "read_result \<Rightarrow> world \<Rightarrow> bool \<times> world" where
  "loop_body r w =
     (case r of
        NoFrame \<Rightarrow> (False, w\<lparr>console := console w @ [VideoRestart]\<rparr>)
      | Frame fr \<Rightarrow>
          (let w1 = w\<lparr>frame_count := frame_count w + 1\<rparr>
           in if frame_count w1 mod FRAME_SKIP \<noteq> 0 then (False, w1)
              else
                (let w2 = check_location (clock fr) (location_file fr) w1;
                     w3 = (case tracked fr of None \<Rightarrow> w2 | Some obs \<Rightarrow> process_boxes obs w2)
                 in (pressed fr AND 255 = 27, w3))))"

text \<open>
  The loop itself has no bound, so it is a partial function: \<open>None\<close> is a run that
  never leaves the loop, \<open>Some w\<close> a run that reaches the cleanup in state \<open>w\<close>.
\<close>

partial_function (option) main_loop :: "(nat \<Rightarrow> read_result) \<Rightarrow> nat \<Rightarrow> world \<Rightarrow> world option" where
  "main_loop env n w =
     (let r = loop_body (env n) w
      in if fst r then Some (snd r) else main_loop env (Suc n) (snd r))"

text \<open>
  \<open>passes env n k w\<close> is the state after \<open>k\<close> more passes from pass \<open>n\<close> (or at the
  \<^verbatim>\<open>break\<close>, if one comes first): the states the process goes through.
\<close>

fun passes :: "(nat \<Rightarrow> read_result) \<Rightarrow> nat \<Rightarrow> nat \<Rightarrow> world \<Rightarrow> world" where
  "passes env n 0 w = w"
| "passes env n (Suc k) w =
     (let r = loop_body (env n) w
      in if fst r then snd r else passes env (Suc n) k (snd r))"

text \<open>A frame source on which every read fails, also after each rewind.\<close>

definition dead_source :: "nat \<Rightarrow> read_result" where
  "dead_source n = NoFrame"

subsection \<open>Vocabulary of the properties\<close>

text \<open>
  The calls of the database writer and the rows of the CSV backup that carry a given
  vehicle id.
\<close>

definition calls_for :: "int \<Rightarrow> world \<Rightarrow> crossing_event list" where
  "calls_for i w = filter (\<lambda>e. vehicle_id e = i) (db_calls w)"

definition backup_for :: "int \<Rightarrow> world \<Rightarrow> crossing_event list" where
  "backup_for i w = filter (\<lambda>e. vehicle_id e = i) (csv_rows w)"

text \<open>
  The invariant behind the count: the ids handed to the database writer are pairwise
  different and all in \<open>counted_ids\<close>, and the CSV backup holds the same ids in
  the same order.
\<close>

definition at_most_once :: "world \<Rightarrow> bool" where
  "at_most_once w \<longleftrightarrow>
     distinct (map vehicle_id (db_calls w)) \<and>
     (\<forall>e \<in> set (db_calls w). vehicle_id e \<in> counted_ids w) \<and>
     map vehicle_id (csv_rows w) = map vehicle_id (db_calls w)"

text \<open>
  \<open>settled i w w'\<close>: between \<open>w\<close> and \<open>w'\<close> the id \<open>i\<close> stayed counted and
  nothing was written for it.
\<close>

definition settled :: "int \<Rightarrow> world \<Rightarrow> world \<Rightarrow> bool" where
  "settled i w w' \<longleftrightarrow>
     i \<in> counted_ids w' \<and> calls_for i w' = calls_for i w \<and> backup_for i w' = backup_for i w"

text \<open>
  Two segments that are both of positive length and do not lie on one common line.
\<close>

definition proper_segments :: "point \<Rightarrow> point \<Rightarrow> point \<Rightarrow> point \<Rightarrow> bool" where
  "proper_segments S E P Q \<longleftrightarrow>
     S \<noteq> E \<and> P \<noteq> Q \<and> \<not> (collinear3 S E P \<and> collinear3 S E Q)"

text \<open>
  A read of the location file that gives no location: the file does not exist, it
  cannot be read, or it holds nothing but whitespace.
\<close>

definition read_failed :: "file_read \<Rightarrow> bool" where
  "read_failed f =
     (case f of Missing \<Rightarrow> True | Unreadable \<Rightarrow> True | Content s \<Rightarrow> list_all is_space s)"

text \<open>No display counter is smaller in \<open>w'\<close> than in \<open>w\<close>.\<close>

definition counters_le :: "world \<Rightarrow> world \<Rightarrow> bool" where
  "counters_le w w' \<longleftrightarrow>
     count_cars w \<le> count_cars w' \<and> count_bikes w \<le> count_bikes w' \<and>
     count_trucks w \<le> count_trucks w'"

text \<open>A box as the tracker reports it, for the worked examples.\<close>

definition sighting :: "int \<Rightarrow> string \<Rightarrow> rat \<Rightarrow> point \<Rightarrow> observation" where
  "sighting i l c p = \<lparr>box_id = i, label = l, center_x = fst p, center_y = snd p, conf = c\<rparr>"

section \<open>Properties\<close>

subsection \<open>Orientation test\<close>

lemma ccw_turn: "ccw A B C \<longleftrightarrow> 0 < turn A B C"
  by (simp add: ccw_def turn_def)

lemma turn_swap: "turn A C B = - turn A B C"
  by (simp add: turn_def algebra_simps)

lemma ccw_swap: "turn A B C \<noteq> 0 \<Longrightarrow> ccw A C B \<longleftrightarrow> \<not> ccw A B C"
  using turn_swap [of A B C] by (simp add: ccw_turn) arith

lemma ccw_collinear: "turn A B C = 0 \<Longrightarrow> \<not> ccw A B C \<and> \<not> ccw A C B"
  using turn_swap [of A B C] by (simp add: ccw_turn)

lemma ccw_same: "\<not> ccw A B B"
  by (simp add: ccw_def)


lemma crossed_line_same: "\<not> crossed_line c c ls le"
  by (simp add: crossed_line_def ccw_same)

subsection \<open>The engine on one box\<close>

lemmas po_defs = process_observation_def log_vehicle_to_database_def bump_counter_def Let_def

lemmas geo_defs = crossed_line_def ccw_def LINE_START_def LINE_END_def

lemmas run_defs = po_defs init_world_def get_current_location_def sighting_def recognized_def
  map_vehicle_class_def geo_defs DEFAULT_LOCATION_def

lemma db_calls_process_observation:
  "db_calls (process_observation ob w) = db_calls w \<and>
   counted_ids (process_observation ob w) = counted_ids w \<or>
   box_id ob \<notin> counted_ids w \<and>
   counted_ids (process_observation ob w) = insert (box_id ob) (counted_ids w) \<and>
   db_calls (process_observation ob w) =
     db_calls w @ [\<lparr>vehicle_type = map_vehicle_class (label ob), vehicle_id = box_id ob,
                      location_id = current_location w\<rparr>]"
  by (simp add: po_defs)

lemma csv_rows_process_observation:
  "csv_rows (process_observation ob w) = csv_rows w \<and>
   db_calls (process_observation ob w) = db_calls w \<or>
   (\<exists>ev. vehicle_id ev = box_id ob \<and>
         csv_rows (process_observation ob w) = csv_rows w @ [ev] \<and>
         db_calls (process_observation ob w) = db_calls w @ [ev])"
  by (simp add: po_defs)

lemma check_location_fields:
  "db_calls (check_location t f w) = db_calls w"
  "db_rows (check_location t f w) = db_rows w"
  "csv_rows (check_location t f w) = csv_rows w"
  "counted_ids (check_location t f w) = counted_ids w"
  "object_memory (check_location t f w) = object_memory w"
  "count_cars (check_location t f w) = count_cars w"
  "count_bikes (check_location t f w) = count_bikes w"
  "count_trucks (check_location t f w) = count_trucks w"
  "db_outcomes (check_location t f w) = db_outcomes w"
  by (simp_all add: check_location_def Let_def split: prod.splits)

subsection \<open>The invariant along a run\<close>

lemma at_most_once_process_observation:
  assumes "at_most_once w"
  shows "at_most_once (process_observation ob w)"
proof -
  let ?w = "process_observation ob w"
  from db_calls_process_observation [of ob w] csv_rows_process_observation [of ob w]
  consider
    (same) "db_calls ?w = db_calls w" "counted_ids ?w = counted_ids w" "csv_rows ?w = csv_rows w"
  | (new) ev where "box_id ob \<notin> counted_ids w" "vehicle_id ev = box_id ob"
      "counted_ids ?w = insert (box_id ob) (counted_ids w)"
      "db_calls ?w = db_calls w @ [ev]" "csv_rows ?w = csv_rows w @ [ev]"
    by auto
  then show ?thesis
  proof cases
    case same
    with assms show ?thesis by (simp add: at_most_once_def)
  next
    case new
    with assms show ?thesis by (auto simp: at_most_once_def)
  qed
qed

lemma at_most_once_process_boxes:
  "at_most_once w \<Longrightarrow> at_most_once (process_boxes obs w)"
  by (induction obs arbitrary: w) (simp_all add: at_most_once_process_observation)

lemma at_most_once_check_location:
  "at_most_once w \<Longrightarrow> at_most_once (check_location t f w)"
  by (simp add: at_most_once_def check_location_fields)

lemma at_most_once_upd:
  "at_most_once (w\<lparr>frame_count := fc\<rparr>) = at_most_once w"
  "at_most_once (w\<lparr>console := co\<rparr>) = at_most_once w"
  by (simp_all add: at_most_once_def)

lemma at_most_once_loop_body:
  "at_most_once w \<Longrightarrow> at_most_once (snd (loop_body r w))"
  by (simp add: loop_body_def Let_def at_most_once_upd at_most_once_process_boxes
        at_most_once_check_location split: read_result.splits option.splits)

lemma at_most_once_passes:
  "at_most_once w \<Longrightarrow> at_most_once (passes env n k w)"
  by (induction k arbitrary: n w) (simp_all add: Let_def at_most_once_loop_body)

lemma at_most_once_init_world: "at_most_once (init_world f t0 oc)"
  by (simp add: at_most_once_def init_world_def split: prod.splits)

lemma distinct_count_list_le: "distinct xs \<Longrightarrow> count_list xs x \<le> 1"
  by (induction xs) (auto simp: count_list_0_iff)

subsection \<open>A counted id stays counted and silent\<close>

lemma settled_process_observation:
  assumes "i \<in> counted_ids w"
  shows "settled i w (process_observation ob w)"
  using assms db_calls_process_observation [of ob w] csv_rows_process_observation [of ob w]
  by (auto simp: settled_def calls_for_def backup_for_def)

lemma settled_process_boxes:
  "i \<in> counted_ids w \<Longrightarrow> settled i w (process_boxes obs w)"
proof (induction obs arbitrary: w)
  case Nil
  then show ?case by (simp add: settled_def)
next
  case (Cons ob obs)
  from Cons.prems have 1: "settled i w (process_observation ob w)"
    by (rule settled_process_observation)
  then have "i \<in> counted_ids (process_observation ob w)" by (simp add: settled_def)
  then have "settled i (process_observation ob w) (process_boxes obs (process_observation ob w))"
    by (rule Cons.IH)
  with 1 show ?case by (simp add: settled_def)
qed

lemma settled_loop_body:
  assumes "i \<in> counted_ids w"
  shows "settled i w (snd (loop_body r w))"
proof (cases r)
  case NoFrame
  with assms show ?thesis
    by (simp add: loop_body_def settled_def calls_for_def backup_for_def)
next
  case (Frame fr)
  let ?w1 = "w\<lparr>frame_count := frame_count w + 1\<rparr>"
  let ?w2 = "check_location (clock fr) (location_file fr) ?w1"
  have 2: "settled i w ?w2"
    using assms by (simp add: settled_def calls_for_def backup_for_def check_location_fields)
  show ?thesis
  proof (cases "tracked fr")
    case None
    with Frame 2 assms show ?thesis
      by (simp add: loop_body_def Let_def settled_def calls_for_def backup_for_def)
  next
    case (Some obs)
    from 2 have "i \<in> counted_ids ?w2" by (simp add: settled_def)
    then have "settled i ?w2 (process_boxes obs ?w2)" by (rule settled_process_boxes)
    with 2 have "settled i w (process_boxes obs ?w2)" by (simp add: settled_def)
    with Frame Some assms show ?thesis
      by (simp add: loop_body_def Let_def settled_def calls_for_def backup_for_def)
  qed
qed

lemma settled_passes:
  "i \<in> counted_ids w \<Longrightarrow> settled i w (passes env n k w)"
proof (induction k arbitrary: n w)
  case 0
  then show ?case by (simp add: settled_def)
next
  case (Suc k)
  let ?w = "snd (loop_body (env n) w)"
  from Suc.prems have 1: "settled i w ?w" by (rule settled_loop_body)
  then have "i \<in> counted_ids ?w" by (simp add: settled_def)
  then have "settled i ?w (passes env (Suc n) k ?w)" by (rule Suc.IH)
  with 1 show ?case by (simp add: settled_def Let_def)
qed

subsection \<open>Leaving the loop\<close>

lemma main_loop_passes:
  assumes "main_loop env n w = Some w'"
  shows "\<exists>k. w' = passes env n k w"
proof (rule main_loop.raw_induct [where P = "\<lambda>env n w w'. \<exists>k. w' = passes env n k w", OF _ assms])
  fix f :: "(nat \<Rightarrow> read_result) \<Rightarrow> nat \<Rightarrow> world \<Rightarrow> world option"
  fix env n w w'
  assume IH: "\<And>env n w w'. f env n w = Some w' \<Longrightarrow> \<exists>k. w' = passes env n k w"
  assume step: "(let r = loop_body (env n) w
                 in if fst r then Some (snd r) else f env (Suc n) (snd r)) = Some w'"
  show "\<exists>k. w' = passes env n k w"
  proof (cases "fst (loop_body (env n) w)")
    case True
    with step have "w' = passes env n (Suc 0) w" by (simp add: Let_def)
    then show ?thesis by blast
  next
    case False
    with step have "f env (Suc n) (snd (loop_body (env n) w)) = Some w'" by (simp add: Let_def)
    then obtain k where "w' = passes env (Suc n) k (snd (loop_body (env n) w))"
      using IH by blast
    with False have "w' = passes env n (Suc k) w" by (simp add: Let_def)
    then show ?thesis by blast
  qed
qed

lemma main_loop_frame:
  assumes "main_loop env n w = Some w'"
  shows "\<exists>m\<ge>n. env m \<noteq> NoFrame"
proof (rule main_loop.raw_induct [where P = "\<lambda>env n w w'. \<exists>m\<ge>n. env m \<noteq> NoFrame", OF _ assms])
  fix f :: "(nat \<Rightarrow> read_result) \<Rightarrow> nat \<Rightarrow> world \<Rightarrow> world option"
  fix env n w w'
  assume IH: "\<And>env n w w'. f env n w = Some w' \<Longrightarrow> \<exists>m\<ge>n. env m \<noteq> NoFrame"
  assume step: "(let r = loop_body (env n) w
                 in if fst r then Some (snd r) else f env (Suc n) (snd r)) = Some w'"
  show "\<exists>m\<ge>n. env m \<noteq> NoFrame"
  proof (cases "env n = NoFrame")
    case True
    then have "\<not> fst (loop_body (env n) w)" by (simp add: loop_body_def)
    with step have "f env (Suc n) (snd (loop_body (env n) w)) = Some w'" by (simp add: Let_def)
    then obtain m where "m \<ge> Suc n" "env m \<noteq> NoFrame" using IH by blast
    then show ?thesis by (meson Suc_leD)
  next
    case False
    then show ?thesis by blast
  qed
qed

lemma passes_no_frame:
  "\<forall>m\<ge>n. env m = NoFrame \<Longrightarrow>
     passes env n k w = w\<lparr>console := console w @ replicate k VideoRestart\<rparr>"
proof (induction k arbitrary: n w)
  case 0
  then show ?case by simp
next
  case (Suc k)
  from Suc.prems have "env n = NoFrame" by simp
  moreover from Suc.prems have "\<forall>m\<ge>Suc n. env m = NoFrame" by simp
  ultimately show ?case
    using Suc.IH [of "Suc n"] by (simp add: loop_body_def Let_def replicate_app_Cons_same)
qed

subsection \<open>Location reads\<close>

lemma strip_empty_iff: "strip s = [] \<longleftrightarrow> list_all is_space s"
proof
  assume "list_all is_space s"
  then show "strip s = []"
    by (auto simp: strip_def list_all_iff dest: set_dropWhileD)
next
  assume "strip s = []"
  then have "\<forall>c \<in> set (dropWhile is_space s). is_space c"
    by (simp add: strip_def)
  then have "dropWhile is_space s = []"
    using hd_dropWhile [of is_space s] hd_in_set [of "dropWhile is_space s"] by blast
  then show "list_all is_space s" by (simp add: list_all_iff)
qed

lemma get_current_location_failed:
  "read_failed f \<Longrightarrow> fst (get_current_location f) = DEFAULT_LOCATION"
  by (cases f) (simp_all add: read_failed_def get_current_location_def strip_empty_iff)

lemma get_current_location_content:
  "\<not> list_all is_space s \<Longrightarrow> fst (get_current_location (Content s)) = strip s"
  by (simp add: get_current_location_def strip_empty_iff)

lemma current_location_check_location:
  "t - last_location_check w > 5 \<Longrightarrow>
     current_location (check_location t f w) = fst (get_current_location f)"
  by (auto simp: check_location_def Let_def split: prod.splits)

subsection \<open>Position memory, counters and the sink on one box\<close>

lemma first_sight_step:
  assumes "object_memory w (box_id ob) = None"
  shows "db_calls (process_observation ob w) = db_calls w \<and>
         db_rows (process_observation ob w) = db_rows w \<and>
         csv_rows (process_observation ob w) = csv_rows w \<and>
         counted_ids (process_observation ob w) = counted_ids w \<and>
         count_cars (process_observation ob w) = count_cars w \<and>
         count_bikes (process_observation ob w) = count_bikes w \<and>
         count_trucks (process_observation ob w) = count_trucks w \<and>
         object_memory (process_observation ob w) (box_id ob) =
           (if label ob \<in> set recognized \<and> conf ob > 25 / 100
            then Some (center_x ob, center_y ob) else None)"
  using assms by (simp add: po_defs crossed_line_def ccw_same)

lemma memory_process_observation:
  "box_id ob \<noteq> i \<Longrightarrow> object_memory (process_observation ob w) i = object_memory w i"
  by (simp add: po_defs)

lemma memory_process_boxes:
  "\<forall>ob \<in> set obs. box_id ob \<noteq> i \<Longrightarrow> object_memory (process_boxes obs w) i = object_memory w i"
  by (induction obs arbitrary: w) (simp_all add: memory_process_observation)

lemma counters_process_observation:
  "(count_cars (process_observation ob w), count_bikes (process_observation ob w),
    count_trucks (process_observation ob w)) =
   (if db_calls (process_observation ob w) = db_calls w
      then (count_cars w, count_bikes w, count_trucks w)
    else if label ob = ''car'' then (count_cars w + 1, count_bikes w, count_trucks w)
    else if label ob = ''motorcycle'' then (count_cars w, count_bikes w + 1, count_trucks w)
    else if label ob = ''truck'' then (count_cars w, count_bikes w, count_trucks w + 1)
    else (count_cars w, count_bikes w, count_trucks w))"
  by (simp add: po_defs)

lemma emitted_label:
  "db_calls (process_observation ob w) \<noteq> db_calls w \<Longrightarrow> label ob \<in> set recognized"
  by (simp add: po_defs split: if_splits)

lemma counters_le_process_observation: "counters_le w (process_observation ob w)"
  by (simp add: counters_le_def po_defs)

lemma counters_le_trans: "counters_le a b \<Longrightarrow> counters_le b c \<Longrightarrow> counters_le a c"
  by (simp add: counters_le_def)

lemma counters_le_process_boxes: "counters_le w (process_boxes obs w)"
proof (induction obs arbitrary: w)
  case Nil
  show ?case by (simp add: counters_le_def)
next
  case (Cons ob obs)
  from counters_le_process_observation [of w ob] Cons [of "process_observation ob w"]
  show ?case by (simp add: counters_le_trans)
qed

lemma counters_le_loop_body: "counters_le w (snd (loop_body r w))"
proof (cases r)
  case NoFrame
  then show ?thesis by (simp add: loop_body_def counters_le_def)
next
  case (Frame fr)
  let ?w2 = "check_location (clock fr) (location_file fr) (w\<lparr>frame_count := frame_count w + 1\<rparr>)"
  have 1: "counters_le w ?w2" by (simp add: counters_le_def check_location_fields)
  show ?thesis
  proof (cases "tracked fr")
    case None
    with Frame 1 show ?thesis by (simp add: loop_body_def Let_def counters_le_def)
  next
    case (Some obs)
    from 1 counters_le_process_boxes [of ?w2 obs] have "counters_le w (process_boxes obs ?w2)"
      by (rule counters_le_trans)
    with Frame Some show ?thesis by (simp add: loop_body_def Let_def counters_le_def)
  qed
qed

lemma counters_le_passes: "counters_le w (passes env n k w)"
proof (induction k arbitrary: n w)
  case 0
  show ?case by (simp add: counters_le_def)
next
  case (Suc k)
  from counters_le_loop_body [of w "env n"] Suc [of "snd (loop_body (env n) w)" "Suc n"]
  have "counters_le w (passes env (Suc n) k (snd (loop_body (env n) w)))"
    by (rule counters_le_trans)
  with counters_le_loop_body [of w "env n"] show ?case by (simp add: Let_def)
qed




section \<open>The claims\<close>

text \<open>
  C1 (at-most-once emission). Along every run of the loop from the initial state,
  whatever the frames, boxes, keys and database outcomes, each vehicle id occurs at
  most once among the calls of the database writer and at most once among the rows
  of the CSV backup. And from any state in which an id is in \<open>counted_ids\<close>, no
  further pass of the loop writes anything for that id, and the id stays counted.
\<close>

theorem at_most_once_emission:
  "count_list (map vehicle_id (db_calls (passes env 0 k (init_world f t0 oc)))) i \<le> 1 \<and>
   count_list (map vehicle_id (csv_rows (passes env 0 k (init_world f t0 oc)))) i \<le> 1 \<and>
   (j \<in> counted_ids w \<longrightarrow> settled j w (passes src n m w))"
proof -
  let ?w = "passes env 0 k (init_world f t0 oc)"
  have inv: "at_most_once ?w"
    by (rule at_most_once_passes) (rule at_most_once_init_world)
  from inv have "distinct (map vehicle_id (db_calls ?w))"
    by (simp add: at_most_once_def)
  then have db: "count_list (map vehicle_id (db_calls ?w)) i \<le> 1"
    by (rule distinct_count_list_le)
  from inv have "distinct (map vehicle_id (csv_rows ?w))"
    by (simp add: at_most_once_def)
  then have csv: "count_list (map vehicle_id (csv_rows ?w)) i \<le> 1"
    by (rule distinct_count_list_le)
  have "j \<in> counted_ids w \<longrightarrow> settled j w (passes src n m w)"
    using settled_passes by blast
  with db csv show ?thesis by blast
qed

theorem at_most_once_emission_witness:
  "7 \<in> counted_ids (process_boxes [sighting 7 ''car'' (9/10) (90, 190),
                                      sighting 7 ''car'' (9/10) (110, 170)]
                        (init_world Missing 0 [])) \<and>
   settled 7
     (process_boxes [sighting 7 ''car'' (9/10) (90, 190), sighting 7 ''car'' (9/10) (110, 170)]
        (init_world Missing 0 []))
     (passes (\<lambda>n. Frame \<lparr>clock = 1, location_file = Missing,
                           tracked = Some [sighting 7 ''car'' (9/10) (90, 190)], pressed = - 1\<rparr>)
        0 6
        (process_boxes [sighting 7 ''car'' (9/10) (90, 190), sighting 7 ''car'' (9/10) (110, 170)]
           (init_world Missing 0 [])))"
proof -
  have "7 \<in> counted_ids (process_boxes [sighting 7 ''car'' (9/10) (90, 190),
                                           sighting 7 ''car'' (9/10) (110, 170)]
                             (init_world Missing 0 []))"
    by (simp add: run_defs)
  with at_most_once_emission show ?thesis by blast
qed

text \<open>
  C2 (tie policy of the crossing detector). The claim is that segments which are
  collinear-touching, or which share only one point that is an endpoint of one of
  them, are never judged as crossing. For the second kind this fails: the
  displacement from \<open>(90, 190)\<close> to \<open>(110, 170)\<close> passes exactly through the
  start point of the gate, shares nothing else with it, and is judged a crossing.
\<close>

theorem tie_not_always_no_crossing:
  "on_segment (90, 190) (110, 170) LINE_START \<and>
   \<not> collinear3 LINE_START LINE_END (90, 190) \<and>
   \<not> collinear3 LINE_START LINE_END (110, 170) \<and>
   crossed_line (90, 190) (110, 170) LINE_START LINE_END"
  by (simp add: geo_defs on_segment_def collinear3_def turn_def)

text \<open>
  C2, as the code has it. A point on a line counts as not counter-clockwise of it.
  So \<open>crossed_line\<close> is false whenever an endpoint of one segment lies on the line
  of the other and the second endpoint of that segment is not strictly
  counter-clockwise of that line; this covers every pair of collinear segments. A
  touching endpoint whose partner is strictly counter-clockwise can count as a
  crossing.
\<close>

theorem crossed_line_tie_policy:
  assumes "collinear3 ls le prev \<and> \<not> ccw ls le cur \<or>
           collinear3 ls le cur \<and> \<not> ccw ls le prev \<or>
           collinear3 ls prev cur \<and> \<not> ccw le prev cur \<or>
           collinear3 le prev cur \<and> \<not> ccw ls prev cur"
  shows "\<not> crossed_line prev cur ls le"
  using assms by (auto simp: crossed_line_def collinear3_def ccw_turn)

theorem crossed_line_tie_policy_witness:
  "collinear3 LINE_START LINE_END (160, 167) \<and> \<not> ccw LINE_START LINE_END (160, 100) \<and>
   \<not> crossed_line (160, 167) (160, 100) LINE_START LINE_END"
proof -
  have h: "collinear3 LINE_START LINE_END (160, 167) \<and> \<not> ccw LINE_START LINE_END (160, 100)"
    by (simp add: geo_defs collinear3_def turn_def)
  with crossed_line_tie_policy [of LINE_START LINE_END "(160, 167)" "(160, 100)"]
  show ?thesis by blast
qed

text \<open>
  C9 (symmetry of the crossing test). The claim is that swapping the two ends of
  the displacement never changes the result, for two segments of positive length
  that are not collinear. It fails when an end of the gate lies on the line of the
  displacement: moving down through the start point of the gate is a crossing,
  moving up through it is not.
\<close>

theorem crossed_line_not_symmetric:
  "proper_segments LINE_START LINE_END (100, 190) (100, 170) \<and>
   crossed_line (100, 190) (100, 170) LINE_START LINE_END \<noteq>
   crossed_line (100, 170) (100, 190) LINE_START LINE_END"
  by (simp add: geo_defs proper_segments_def collinear3_def turn_def)

text \<open>
  C9, as the code has it. Swapping the ends of the displacement leaves the result
  unchanged whenever the two ends of the gate are both off, or both on, the line
  through the ends of the displacement; in particular whenever no three of the four
  points lie on one line.
\<close>

theorem crossed_line_swap:
  assumes "collinear3 S P Q \<longleftrightarrow> collinear3 E P Q"
  shows "crossed_line P Q S E \<longleftrightarrow> crossed_line Q P S E"
proof (cases "turn S P Q = 0")
  case True
  with assms have "turn E P Q = 0" by (simp add: collinear3_def)
  with True show ?thesis
    using ccw_collinear [of S P Q] ccw_collinear [of E P Q] by (simp add: crossed_line_def)
next
  case False
  with assms have "turn E P Q \<noteq> 0" by (simp add: collinear3_def)
  with False show ?thesis
    using ccw_swap [of S P Q] ccw_swap [of E P Q] by (auto simp: crossed_line_def)
qed

theorem crossed_line_swap_witness:
  "\<not> collinear3 LINE_START (300, 100) (300, 200) \<and>
   \<not> collinear3 LINE_END (300, 100) (300, 200) \<and>
   crossed_line (300, 100) (300, 200) LINE_START LINE_END \<and>
   crossed_line (300, 200) (300, 100) LINE_START LINE_END"
proof -
  have h: "collinear3 LINE_START (300, 100) (300, 200) \<longleftrightarrow> collinear3 LINE_END (300, 100) (300, 200)"
    by (simp add: geo_defs collinear3_def turn_def)
  have c: "crossed_line (300, 100) (300, 200) LINE_START LINE_END"
    by (simp add: geo_defs)
  have n: "\<not> collinear3 LINE_START (300, 100) (300, 200)"
    "\<not> collinear3 LINE_END (300, 100) (300, 200)"
    by (simp_all add: geo_defs collinear3_def turn_def)
  from crossed_line_swap [OF h] n c show ?thesis by blast
qed

text \<open>
  C6 (no first-sight crossing). When an id has no entry in the position memory, and
  whatever boxes of other ids are processed first, processing a box of that id
  emits nothing: the previous centre defaults to the current one, the crossing test
  on the zero-length segment is false, so no row is written, the id is not counted
  and no counter moves. The memory then holds the centre (if the box passed the
  label and confidence filter).
\<close>

theorem no_first_sight_crossing:
  assumes "object_memory w (box_id ob) = None"
    and "\<forall>b \<in> set before. box_id b \<noteq> box_id ob"
  shows "\<not> crossed_line (center_x ob, center_y ob) (center_x ob, center_y ob) LINE_START LINE_END \<and>
         db_calls (process_observation ob (process_boxes before w)) =
           db_calls (process_boxes before w) \<and>
         csv_rows (process_observation ob (process_boxes before w)) =
           csv_rows (process_boxes before w) \<and>
         counted_ids (process_observation ob (process_boxes before w)) =
           counted_ids (process_boxes before w) \<and>
         count_cars (process_observation ob (process_boxes before w)) =
           count_cars (process_boxes before w) \<and>
         count_bikes (process_observation ob (process_boxes before w)) =
           count_bikes (process_boxes before w) \<and>
         count_trucks (process_observation ob (process_boxes before w)) =
           count_trucks (process_boxes before w) \<and>
         object_memory (process_observation ob (process_boxes before w)) (box_id ob) =
           (if label ob \<in> set recognized \<and> conf ob > 25 / 100
            then Some (center_x ob, center_y ob) else None)"
proof -
  from assms have "object_memory (process_boxes before w) (box_id ob) = None"
    by (simp add: memory_process_boxes)
  from first_sight_step [OF this] crossed_line_same show ?thesis by blast
qed

theorem no_first_sight_crossing_witness:
  "object_memory (init_world Missing 0 []) (box_id (sighting 9 ''car'' (9/10) (500, 500))) = None \<and>
   box_id (sighting 7 ''car'' (9/10) (90, 190)) \<noteq> box_id (sighting 9 ''car'' (9/10) (500, 500)) \<and>
   box_id (sighting 7 ''car'' (9/10) (110, 170)) \<noteq> box_id (sighting 9 ''car'' (9/10) (500, 500)) \<and>
   db_calls (process_observation (sighting 9 ''car'' (9/10) (500, 500))
      (process_boxes [sighting 7 ''car'' (9/10) (90, 190), sighting 7 ''car'' (9/10) (110, 170)]
         (init_world Missing 0 []))) =
   db_calls (process_boxes [sighting 7 ''car'' (9/10) (90, 190), sighting 7 ''car'' (9/10) (110, 170)]
         (init_world Missing 0 [])) \<and>
   object_memory (process_observation (sighting 9 ''car'' (9/10) (500, 500))
      (process_boxes [sighting 7 ''car'' (9/10) (90, 190), sighting 7 ''car'' (9/10) (110, 170)]
         (init_world Missing 0 []))) 9 = Some (500, 500)"
proof -
  have 1: "object_memory (init_world Missing 0 [])
             (box_id (sighting 9 ''car'' (9/10) (500, 500))) = None"
    by (simp add: init_world_def get_current_location_def)
  have 2: "\<forall>b \<in> set [sighting 7 ''car'' (9/10) (90, 190), sighting 7 ''car'' (9/10) (110, 170)].
             box_id b \<noteq> box_id (sighting 9 ''car'' (9/10) (500, 500))"
    by (simp add: sighting_def)
  have 3: "label (sighting 9 ''car'' (9/10) (500, 500)) \<in> set recognized \<and>
           conf (sighting 9 ''car'' (9/10) (500, 500)) > 25 / 100"
    by (simp add: sighting_def recognized_def)
  have 4: "box_id (sighting 9 ''car'' (9/10) (500, 500)) = 9"
    "center_x (sighting 9 ''car'' (9/10) (500, 500)) = 500"
    "center_y (sighting 9 ''car'' (9/10) (500, 500)) = 500"
    by (simp_all add: sighting_def)
  have 5: "box_id (sighting 7 ''car'' (9/10) (90, 190)) \<noteq> box_id (sighting 9 ''car'' (9/10) (500, 500))"
    "box_id (sighting 7 ''car'' (9/10) (110, 170)) \<noteq> box_id (sighting 9 ''car'' (9/10) (500, 500))"
    by (simp_all add: sighting_def)
  from no_first_sight_crossing [OF 1 2] 1 3 5 show ?thesis
    unfolding 4 by simp
qed

text \<open>
  C3 (retention of the location on a failed read). The claim is that a read that
  fails or yields empty content leaves the held location as it was. It does not:
  with \<^verbatim>\<open>Site A\<close> held, a check that finds the file missing, or holding only a
  blank, sets the location to \<^verbatim>\<open>Basni Crossing\<close>.
\<close>

theorem failed_read_not_retained:
  "current_location
     (check_location 6 Missing ((init_world (Content ''Site A'') 0 [])))
   = ''Basni Crossing'' \<and>
   current_location (init_world (Content ''Site A'') 0 []) = ''Site A'' \<and>
   current_location
     (check_location 6 (Content '' '') ((init_world (Content ''Site A'') 0 [])))
   = ''Basni Crossing''"
  by (simp add: check_location_def init_world_def get_current_location_def strip_def
        is_space_def DEFAULT_LOCATION_def Let_def)

text \<open>
  C3, as the code has it. At a location check (more than five seconds after the
  last one) a read that fails or yields only whitespace sets the held location to
  the default \<^verbatim>\<open>Basni Crossing\<close>, so the previous value survives only if it was
  that default; a read that yields other text sets the location to that text,
  stripped.
\<close>

theorem location_check_replaces:
  assumes "t - last_location_check w > 5"
  shows "(read_failed f \<longrightarrow>
            current_location (check_location t f w) = DEFAULT_LOCATION \<and>
            (current_location (check_location t f w) = current_location w
               \<longleftrightarrow> current_location w = DEFAULT_LOCATION)) \<and>
         (f = Content s \<and> \<not> read_failed f \<longrightarrow>
            current_location (check_location t f w) = strip s)"
proof -
  have "current_location (check_location t f w) = fst (get_current_location f)"
    using assms by (rule current_location_check_location)
  then show ?thesis
    using get_current_location_failed [of f] get_current_location_content [of s]
    by (auto simp: read_failed_def)
qed

theorem location_check_replaces_witness:
  "(6 - last_location_check (init_world (Content ''Site A'') 0 []) > 5 \<and>
    read_failed Unreadable \<and>
    current_location (check_location 6 Unreadable (init_world (Content ''Site A'') 0 []))
      = DEFAULT_LOCATION) \<and>
   (Content ''Site B'' = Content ''Site B'' \<and> \<not> read_failed (Content ''Site B'') \<and>
    current_location (check_location 6 (Content ''Site B'') (init_world (Content ''Site A'') 0 []))
      = strip ''Site B'')"
proof -
  have 1: "6 - last_location_check (init_world (Content ''Site A'') 0 []) > 5"
    by (simp add: init_world_def split: prod.splits)
  have 2: "read_failed Unreadable" by (simp add: read_failed_def)
  have 3: "\<not> read_failed (Content ''Site B'')"
    by (simp add: read_failed_def is_space_def)
  from location_check_replaces [OF 1, of Unreadable]
       location_check_replaces [OF 1, of "Content ''Site B''" "''Site B''"] 1 2 3
  show ?thesis by blast
qed

text \<open>
  C10 (default location fallback). When the location file does not exist, cannot be
  read or holds only whitespace, \<open>get_current_location\<close> returns
  \<^verbatim>\<open>Basni Crossing\<close>, and a location check that makes such a read leaves the
  engine with \<^verbatim>\<open>Basni Crossing\<close> as its location, whatever it held before.
\<close>

theorem default_location_fallback:
  assumes "read_failed f"
  shows "fst (get_current_location f) = ''Basni Crossing'' \<and>
         (t - last_location_check w > 5 \<longrightarrow>
            current_location (check_location t f w) = ''Basni Crossing'')"
  using assms get_current_location_failed [of f] current_location_check_location [of t w f]
  by (simp add: DEFAULT_LOCATION_def)

theorem default_location_fallback_witness:
  "read_failed (Content [CHR 0x20, CHR 0x0A]) \<and>
   10 - last_location_check (init_world (Content ''Site A'') 0 []) > 5 \<and>
   fst (get_current_location (Content [CHR 0x20, CHR 0x0A])) = ''Basni Crossing'' \<and>
   current_location (check_location 10 (Content [CHR 0x20, CHR 0x0A])
       (init_world (Content ''Site A'') 0 [])) = ''Basni Crossing''"
proof -
  have 1: "read_failed (Content [CHR 0x20, CHR 0x0A])"
    by (simp add: read_failed_def is_space_def)
  have 2: "10 - last_location_check (init_world (Content ''Site A'') 0 []) > 5"
    by (simp add: init_world_def split: prod.splits)
  from default_location_fallback [OF 1, of 10 "init_world (Content ''Site A'') 0 []"] 1 2
  show ?thesis by blast
qed

text \<open>
  C4 (aggregate counters track every event). The claim is that every emitted event
  increments exactly one counter, for every recognized class. A bus is recognized
  and its crossing is logged, but the loop keeps no bus counter: the event is
  emitted and the three counters stay at zero.
\<close>

theorem bus_event_moves_no_counter:
  "db_calls (process_boxes [sighting 3 ''bus'' (9/10) (90, 190), sighting 3 ''bus'' (9/10) (110, 170)]
      (init_world Missing 0 [])) =
     [\<lparr>vehicle_type = ''bus'', vehicle_id = 3, location_id = ''Basni Crossing''\<rparr>] \<and>
   count_cars (process_boxes [sighting 3 ''bus'' (9/10) (90, 190), sighting 3 ''bus'' (9/10) (110, 170)]
      (init_world Missing 0 [])) = 0 \<and>
   count_bikes (process_boxes [sighting 3 ''bus'' (9/10) (90, 190), sighting 3 ''bus'' (9/10) (110, 170)]
      (init_world Missing 0 [])) = 0 \<and>
   count_trucks (process_boxes [sighting 3 ''bus'' (9/10) (90, 190), sighting 3 ''bus'' (9/10) (110, 170)]
      (init_world Missing 0 [])) = 0"
  by (simp add: run_defs)

text \<open>
  C4, as the code has it. Processing a box changes the counters only when it emits
  an event: an event of a car, a motorcycle or a truck adds one to the counter of
  that class and leaves the other two alone; an event of the remaining recognized
  class, bus, leaves all three alone. Along any run no counter ever decreases.
\<close>

theorem counters_follow_events:
  "(count_cars (process_observation ob w), count_bikes (process_observation ob w),
    count_trucks (process_observation ob w)) =
   (if db_calls (process_observation ob w) = db_calls w
      then (count_cars w, count_bikes w, count_trucks w)
    else if label ob = ''car'' then (count_cars w + 1, count_bikes w, count_trucks w)
    else if label ob = ''motorcycle'' then (count_cars w, count_bikes w + 1, count_trucks w)
    else if label ob = ''truck'' then (count_cars w, count_bikes w, count_trucks w + 1)
    else (count_cars w, count_bikes w, count_trucks w)) \<and>
   (db_calls (process_observation ob w) \<noteq> db_calls w \<longrightarrow> label ob \<in> set recognized) \<and>
   counters_le w (passes env n k w)"
  using counters_process_observation [of ob w] emitted_label [of ob w]
    counters_le_passes [of w env n k]
  by blast

theorem counters_follow_events_witness:
  "db_calls (process_observation (sighting 7 ''truck'' (9/10) (110, 170))
      (process_observation (sighting 7 ''truck'' (9/10) (90, 190)) (init_world Missing 0 []))) \<noteq>
   db_calls (process_observation (sighting 7 ''truck'' (9/10) (90, 190)) (init_world Missing 0 [])) \<and>
   label (sighting 7 ''truck'' (9/10) (110, 170)) \<in> set recognized \<and>
   (count_cars (process_observation (sighting 7 ''truck'' (9/10) (110, 170))
      (process_observation (sighting 7 ''truck'' (9/10) (90, 190)) (init_world Missing 0 []))),
    count_bikes (process_observation (sighting 7 ''truck'' (9/10) (110, 170))
      (process_observation (sighting 7 ''truck'' (9/10) (90, 190)) (init_world Missing 0 []))),
    count_trucks (process_observation (sighting 7 ''truck'' (9/10) (110, 170))
      (process_observation (sighting 7 ''truck'' (9/10) (90, 190)) (init_world Missing 0 [])))) =
   (0, 0, 1)"
proof -
  have 1: "db_calls (process_observation (sighting 7 ''truck'' (9/10) (110, 170))
      (process_observation (sighting 7 ''truck'' (9/10) (90, 190)) (init_world Missing 0 []))) \<noteq>
   db_calls (process_observation (sighting 7 ''truck'' (9/10) (90, 190)) (init_world Missing 0 []))"
    by (simp add: run_defs)
  have 2: "label (sighting 7 ''truck'' (9/10) (110, 170)) = ''truck''"
    by (simp add: sighting_def)
  have 3: "count_cars (process_observation (sighting 7 ''truck'' (9/10) (90, 190)) (init_world Missing 0 [])) = 0"
    "count_bikes (process_observation (sighting 7 ''truck'' (9/10) (90, 190)) (init_world Missing 0 [])) = 0"
    "count_trucks (process_observation (sighting 7 ''truck'' (9/10) (90, 190)) (init_world Missing 0 [])) = 0"
    by (simp_all add: run_defs)
  from counters_follow_events [of "sighting 7 ''truck'' (9/10) (110, 170)"
      "process_observation (sighting 7 ''truck'' (9/10) (90, 190)) (init_world Missing 0 [])"] 1
  show ?thesis by (simp add: 2 3 recognized_def)
qed

text \<open>
  C5 (filtering by the configured threshold). The configuration sets
  \<open>CONFIDENCE_THRESHOLD\<close> to 0.3, but the filter of line 165 compares with the
  literal 0.25 and the constant is never read. Two sightings of a car with
  confidence 0.28, which does not exceed the configured threshold, are processed:
  the first is stored in the position memory and the second emits an event.
\<close>

theorem low_confidence_processed:
  "\<not> conf (sighting 7 ''car'' (28/100) (90, 190)) > CONFIDENCE_THRESHOLD \<and>
   \<not> conf (sighting 7 ''car'' (28/100) (110, 170)) > CONFIDENCE_THRESHOLD \<and>
   object_memory (process_observation (sighting 7 ''car'' (28/100) (90, 190))
      (init_world Missing 0 [])) 7 = Some (90, 190) \<and>
   db_calls (process_boxes [sighting 7 ''car'' (28/100) (90, 190),
                            sighting 7 ''car'' (28/100) (110, 170)] (init_world Missing 0 [])) =
     [\<lparr>vehicle_type = ''car'', vehicle_id = 7, location_id = ''Basni Crossing''\<rparr>]"
  by (simp add: run_defs CONFIDENCE_THRESHOLD_def)



text \<open>
  C8 (a source that keeps failing stops the process). The claim is that the process
  stops when the restart keeps failing. The loop has no such exit: on a source that
  never yields a frame it never reaches the cleanup.
\<close>

theorem dead_source_never_stops:
  "main_loop dead_source 0 (init_world Missing 0 []) = None"
proof (cases "main_loop dead_source 0 (init_world Missing 0 [])")
  case None
  then show ?thesis .
next
  case (Some w')
  then have "\<exists>m\<ge>0. dead_source m \<noteq> NoFrame" by (rule main_loop_frame)
  then show ?thesis by (simp add: dead_source_def)
qed

text \<open>
  C8, as the code has it. On end of stream the loop prints the restart line,
  rewinds the source and reads again. If from some pass on the source yields no
  frame, the loop never terminates, and each of its passes only prints the restart
  line: nothing else in the state changes.
\<close>

theorem restart_spins:
  assumes "\<forall>m\<ge>n. env m = NoFrame"
  shows "main_loop env n w = None \<and>
         passes env n k w = w\<lparr>console := console w @ replicate k VideoRestart\<rparr>"
proof -
  have "main_loop env n w = None"
  proof (cases "main_loop env n w")
    case None
    then show ?thesis .
  next
    case (Some w')
    then have "\<exists>m\<ge>n. env m \<noteq> NoFrame" by (rule main_loop_frame)
    with assms show ?thesis by blast
  qed
  with passes_no_frame [OF assms] show ?thesis by blast
qed

theorem restart_spins_witness:
  "dead_source 4 = NoFrame \<and>
   main_loop dead_source 4 (init_world (Content ''Site A'') 0 []) = None \<and>
   console (passes dead_source 4 3 (init_world (Content ''Site A'') 0 [])) =
     [VideoRestart, VideoRestart, VideoRestart]"
proof -
  have 1: "\<forall>m\<ge>4. dead_source m = NoFrame" by (simp add: dead_source_def)
  have 2: "console (init_world (Content ''Site A'') 0 []) = []"
    by (simp add: init_world_def get_current_location_def strip_def is_space_def)
  have 3: "replicate 3 VideoRestart = [VideoRestart, VideoRestart, VideoRestart]"
    by (simp add: numeral_3_eq_3)
  have 4: "dead_source 4 = NoFrame" by (simp add: dead_source_def)
  from restart_spins [OF 1, of "init_world (Content ''Site A'') 0 []" 3] 4 show ?thesis
    by (simp add: 2 3)
qed

end
